theory Spec2Isabelle
  imports Main
begin

section \<open>Data model of the completion plugin (src/lsp-plugin/plugin.go)\<close>

text \<open>
  A Go \<open>rune\<close> is a Unicode code point. A Go \<open>string\<close> that holds valid UTF-8 (every
  string of this program arrives through the JSON decoder, which only produces valid
  UTF-8) is modelled by the list of its code points, so that \<open>[]rune(s)\<close> is the list
  itself, \<open>s == ""\<close> is \<open>s = []\<close>, and \<open>len(s)\<close>, which counts bytes, is the sum of the
  encoded lengths of the code points (\<open>len_string\<close> below).
  Rows, columns and scores are Go \<open>int\<close>s; no operation of the program on them comes
  near the 64-bit bounds, so they are \<open>int\<close>.
\<close>

type_synonym rune = nat

text \<open>\<open>utf8.RuneLen\<close> on the code points a decoded string can hold.\<close>

definition RuneLen :: "rune \<Rightarrow> nat" where
  "RuneLen r = (if r \<le> 0x7F then 1 else if r \<le> 0x7FF then 2 else if r \<le> 0xFFFF then 3 else 4)"

text \<open>\<open>len(s)\<close> of a Go string: its length in bytes.\<close>

definition len_string :: "rune list \<Rightarrow> nat" where
  "len_string s = sum_list (map RuneLen s)"

text \<open>
  A run-time panic of the Go program. Indexing a slice out of range panics with the
  index and the length; dereferencing a nil pointer panics too. \<open>handle\<close> recovers from
  both.
\<close>

datatype panic = IndexOutOfRange int nat | NilDereference

text \<open>
  Modelled from the spec: the declarations of \<open>plugin.View\<close>, \<open>plugin.LineCache\<close> and of
  the line type are not in the source (package \<open>crane/plugin\<close>). The records hold the
  fields the source reads: \<open>view.Path\<close>, \<open>view.Syntax\<close>, \<open>view.Rev\<close>,
  \<open>view.LineCache.Lines[row].Text\<close> and \<open>view.LineCache.Raw\<close> (the spec's
  DocumentSession: filePath, languageID, revision, textModel).
\<close>

record Line =
  Text :: "rune list"

record LineCache =
  Lines :: "Line list"
  Raw :: "rune list"

record View =
  Path :: string
  Syntax :: string
  Rev :: int
  LineCache :: LineCache

section \<open>getWord: the backward word scan\<close>

text \<open>
  An indexing read \<open>runes[i]\<close> of a slice: Go checks both bounds and panics outside
  them.
\<close>

definition index_rune :: "rune list \<Rightarrow> int \<Rightarrow> panic + rune" where
  "index_rune runes i =
     (if i < 0 \<or> i \<ge> int (length runes) then Inl (IndexOutOfRange i (length runes))
      else Inr (runes ! nat i))"

text \<open>
  \<^verbatim>\<open>for i := col; i >= 0; i-- {
      if utils.UtfClass(runes[i]) != 2 { return i + 1, word }
      word = append([]rune{runes[i]}, word...)
  }
  return 0, word\<close>
  The classifier \<open>utils.UtfClass\<close> is outside the source and is a parameter.
\<close>

function getWord_loop :: "(rune \<Rightarrow> int) \<Rightarrow> rune list \<Rightarrow> int \<Rightarrow> rune list \<Rightarrow> panic + (int \<times> rune list)" where
  "getWord_loop UtfClass runes i word =
     (if i \<ge> 0 then
        (case index_rune runes i of
           Inl e \<Rightarrow> Inl e
         | Inr r \<Rightarrow>
             if UtfClass r \<noteq> 2 then Inr (i + 1, word)
             else getWord_loop UtfClass runes (i - 1) (r # word))
      else Inr (0, word))"
  by pat_completeness auto
termination
  by (relation "measure (\<lambda>(c, runes, i, word). nat (i + 1))") auto

declare getWord_loop.simps [simp del]

text \<open>
  \<^verbatim>\<open>line := view.LineCache.Lines[row]; runes := []rune(line.Text); word := []rune{}\<close>
  and then the loop. \<open>Lines[row]\<close> panics when \<open>row\<close> is out of range.
\<close>

definition getWord :: "(rune \<Rightarrow> int) \<Rightarrow> View \<Rightarrow> int \<Rightarrow> int \<Rightarrow> panic + (int \<times> rune list)" where
  "getWord UtfClass view row col =
     (let lines = Lines (LineCache view) in
      if row < 0 \<or> row \<ge> int (length lines) then Inl (IndexOutOfRange row (length lines))
      else getWord_loop UtfClass (Text (lines ! nat row)) col [])"

section \<open>matchCompletionItems: ranking the candidates\<close>

text \<open>
  Modelled from the spec: the declaration of \<open>lsp.CompletionItem\<close> is not in the source
  (package \<open>crane/lsp\<close>). The record holds the fields the source reads and writes,
  \<open>InsertText\<close>, \<open>Score\<close> and \<open>Matches\<close>, and the display label of the spec's Candidate.
\<close>

record CompletionItem =
  InsertText :: "rune list"
  Label :: "rune list"
  Score :: int
  Matches :: "int list"

text \<open>
  The inner loop of \<open>matchCompletionItems\<close>:
  \<^verbatim>\<open>for i = 0; i < len(matchItems); i++ {
      matchItem := matchItems[i]
      if score < matchItem.Score { break }
  }\<close>
  The function returns the value of \<open>i\<close> after the loop.
\<close>

function scan_matchItems :: "int \<Rightarrow> CompletionItem list \<Rightarrow> nat \<Rightarrow> nat" where
  "scan_matchItems score matchItems i =
     (if i < length matchItems then
        (if score < Score (matchItems ! i) then i
         else scan_matchItems score matchItems (i + 1))
      else i)"
  by pat_completeness auto
termination
  by (relation "measure (\<lambda>(score, matchItems, i). length matchItems - i)") auto

declare scan_matchItems.simps [simp del]

text \<open>
  The outer loop, for a non-empty word. The scorer \<open>fuzzy.MatchScore\<close> is outside the
  source and is a parameter. The slice holds pointers, so the writes
  \<open>item.Score = score; item.Matches = matches\<close> are seen through the list the caller
  passed: the loop returns the pair of \<open>matchItems\<close> and of the caller's items after
  the writes.
  \<^verbatim>\<open>matchItems = append(matchItems, nil)
  copy(matchItems[i+1:], matchItems[i:])
  matchItems[i] = item\<close>
  puts the item at index \<open>i\<close> and moves the entries from \<open>i\<close> on one place up.
\<close>

fun match_loop :: "(rune list \<Rightarrow> rune list \<Rightarrow> int \<times> int list) \<Rightarrow> rune list \<Rightarrow>
    CompletionItem list \<Rightarrow> CompletionItem list \<Rightarrow> CompletionItem list \<times> CompletionItem list" where
  "match_loop MatchScore word [] matchItems = (matchItems, [])"
| "match_loop MatchScore word (item # items) matchItems =
     (case MatchScore (InsertText item) word of
        (score, matches) \<Rightarrow>
          if score > - 1 then
            (let i = scan_matchItems score matchItems 0;
                 item' = item\<lparr>Score := score, Matches := matches\<rparr>;
                 (result, items') =
                    match_loop MatchScore word items (take i matchItems @ item' # drop i matchItems)
             in (result, item' # items'))
          else
            (let (result, items') = match_loop MatchScore word items matchItems
             in (result, item # items')))"

text \<open>
  \<open>matchCompletionItems\<close>: with an empty word the matches of every item are cleared and
  the slice itself is returned; otherwise the loop runs from the empty result. The
  first component is the returned slice, the second the caller's items after the
  writes.
\<close>

definition matchCompletionItems :: "(rune list \<Rightarrow> rune list \<Rightarrow> int \<times> int list) \<Rightarrow>
    CompletionItem list \<Rightarrow> rune list \<Rightarrow> CompletionItem list \<times> CompletionItem list" where
  "matchCompletionItems MatchScore items word =
     (if length word = 0 then
        (let items' = map (\<lambda>item. if length (Matches item) > 0 then item\<lparr>Matches := []\<rparr> else item) items
         in (items', items'))
      else match_loop MatchScore word items [])"

section \<open>The plugin state, the backend and the listeners\<close>

record Position =
  Line :: int
  Character :: int

record Range =
  Start :: Position
  End :: Position

text \<open>
  \<open>lsp.TextDocumentPositionParams\<close>: the document's URI (the field
  \<open>TextDocument.URI\<close>) and the position.
\<close>

record TextDocumentPositionParams =
  TextDocument :: string
  Position :: Position

text \<open>
  \<open>lsp.ContentChange\<close>: \<open>Range\<close> is a pointer, nil (\<open>None\<close>) for a whole-document
  replacement.
\<close>

record ContentChange =
  Range :: "Range option"
  ChangeText :: "rune list"

text \<open>
  \<open>lsp.DidChangeParams\<close>: \<open>URI\<close> and \<open>Version\<close> are the fields of its
  \<open>TextDocument\<close>.
\<close>

record DidChangeParams =
  URI :: string
  Version :: int
  ContentChanges :: "ContentChange list"

text \<open>
  Modelled from the spec: the backend client \<open>lsp.Client\<close> is outside the source. The
  record holds the declared synchronisation mode
  (\<open>ServerCapabilities.TextDocumentSync\<close>, 1 for full synchronisation) and the answer of
  the backend to a completion query (\<open>Completion\<close>: an error, or the items of the
  response).
\<close>

record Client =
  TextDocumentSync :: int
  Completion :: "TextDocumentPositionParams \<Rightarrow> string + CompletionItem list"

text \<open>
  What the plugin sends: a change notification and a completion query to the backend,
  and the two broadcasts to every connection of \<open>p.conns\<close> (\<open>notifyCompletion\<close>,
  \<open>notifyCompletionPos\<close>). Each function below returns the list of what it sent, in
  order.
\<close>

datatype event =
    is_DidChange: DidChange DidChangeParams
  | is_CompletionQuery: CompletionQuery TextDocumentPositionParams
  | is_NotifyCompletion: NotifyCompletion "CompletionItem list"
  | is_NotifyCompletionPos: NotifyCompletionPos Position

text \<open>The fields of \<open>Plugin\<close> that the edit path reads or writes.\<close>

record Plugin =
  lsp :: "string \<rightharpoonup> Client"
  views :: "string \<rightharpoonup> View"
  completionItems :: "CompletionItem list"
  completionShown :: bool

text \<open>
  \<open>notifyCompletion\<close> sets \<open>completionShown\<close> and broadcasts the items.
\<close>

definition notifyCompletion :: "Plugin \<Rightarrow> CompletionItem list \<Rightarrow> Plugin \<times> event list" where
  "notifyCompletion p items =
     (p\<lparr>completionShown := (length items > 0)\<rparr>, [NotifyCompletion items])"

definition notifyCompletionPos :: "Position \<Rightarrow> event list" where
  "notifyCompletionPos pos = [NotifyCompletionPos pos]"

section \<open>getCompletionItems: narrow or fetch\<close>

text \<open>
  The result is the returned list or the panic of \<open>getWord\<close>, the plugin after the
  call, and what was sent. With a non-empty stored list the word left of the column is
  scanned (\<open>startCol--\<close> first when \<open>text == ""\<close>) and the stored list is ranked against
  it. Otherwise \<open>len(text) == 1\<close> tests the length of \<open>text\<close> in bytes; \<open>'.'\<close> is the code
  point 46; \<open>[]rune(text)[0]\<close> is read only when \<open>len(text) == 1\<close>, where \<open>text\<close> is not
  empty. \<open>lspClient.Completion(params)\<close> is the query; on an error the empty list is
  returned, otherwise the position is broadcast, the items of the response are stored
  and ranked.
\<close>

definition getCompletionItems :: "(rune \<Rightarrow> int) \<Rightarrow> (rune list \<Rightarrow> rune list \<Rightarrow> int \<times> int list) \<Rightarrow>
    Plugin \<Rightarrow> Client \<Rightarrow> View \<Rightarrow> rune list \<Rightarrow> int \<Rightarrow> int \<Rightarrow>
    (panic + CompletionItem list) \<times> Plugin \<times> event list" where
  "getCompletionItems UtfClass MatchScore p lspClient view text startRow startCol =
     (if length (completionItems p) > 0 then
        (case getWord UtfClass view startRow (if text = [] then startCol - 1 else startCol) of
           Inl e \<Rightarrow> (Inl e, p, [])
         | Inr (_, word) \<Rightarrow>
             (case matchCompletionItems MatchScore (completionItems p) word of
                (result, items') \<Rightarrow> (Inr result, p\<lparr>completionItems := items'\<rparr>, [])))
      else if len_string text \<noteq> 1 \<and> text = [] then (Inr (completionItems p), p, [])
      else
        (case (if len_string text = 1 then
                 (if text = [46] then Inr (startCol + 1, [])
                  else if UtfClass (hd text) = 2 then getWord UtfClass view startRow startCol
                  else Inr (startCol, []))
               else Inr (startCol, [])) of
           Inl e \<Rightarrow> (Inl e, p, [])
         | Inr (startCol', word) \<Rightarrow>
             (let pos = \<lparr>Line = startRow, Character = startCol'\<rparr>;
                  params = \<lparr>TextDocument = ''file://'' @ Path view, Position = pos\<rparr>
              in case Completion lspClient params of
                   Inl err \<Rightarrow> (Inr [], p, [CompletionQuery params])
                 | Inr items \<Rightarrow>
                     (case matchCompletionItems MatchScore items word of
                        (result, items') \<Rightarrow>
                          (Inr result, p\<lparr>completionItems := items'\<rparr>,
                           CompletionQuery params # notifyCompletionPos pos)))))"

section \<open>complete: the reset predicate and the dispatch\<close>

text \<open>
  The two \<open>for ... range\<close> loops with \<open>break\<close> set \<open>reset\<close> when some rune is not of class
  2 (\<open>list_ex\<close>). \<open>lastRune\<close> is read only when \<open>len(runes) > 0\<close>.
\<close>

definition complete :: "(rune \<Rightarrow> int) \<Rightarrow> (rune list \<Rightarrow> rune list \<Rightarrow> int \<times> int list) \<Rightarrow>
    Plugin \<Rightarrow> Client \<Rightarrow> View \<Rightarrow> rune list \<Rightarrow> rune list \<Rightarrow> int \<Rightarrow> int \<Rightarrow>
    (panic + unit) \<times> Plugin \<times> event list" where
  "complete UtfClass MatchScore p lspClient view text deletedText startRow startCol =
     (let runes = text;
          deletedRunes = deletedText;
          reset = (length runes > 1);
          reset = (if \<not> reset then list_ex (\<lambda>r. UtfClass r \<noteq> 2) runes else reset);
          reset = (if \<not> reset then list_ex (\<lambda>r. UtfClass r \<noteq> 2) deletedRunes else reset);
          p = (if reset \<and> length (completionItems p) > 0 then p\<lparr>completionItems := []\<rparr> else p)
      in if length runes > 1 then
           (case notifyCompletion p (completionItems p) of (p', sent) \<Rightarrow> (Inr (), p', sent))
         else if length runes > 0 \<and> last runes \<noteq> 46 \<and> UtfClass (last runes) \<noteq> 2 then
           (case notifyCompletion p (completionItems p) of (p', sent) \<Rightarrow> (Inr (), p', sent))
         else
           (case getCompletionItems UtfClass MatchScore p lspClient view text startRow startCol of
              (Inl e, p', sent) \<Rightarrow> (Inl e, p', sent)
            | (Inr items, p', sent) \<Rightarrow>
                (case notifyCompletion p' items of (p'', sent') \<Rightarrow> (Inr (), p'', sent @ sent'))))"

section \<open>handle: an Update event\<close>

text \<open>
  Modelled from the spec: \<open>plugin.Update\<close> and \<open>view.ApplyUpdate\<close> are outside the source
  (the text model of the spec: it applies an edit and reports the delta). The request
  carries the view's identifier; \<open>ApplyUpdate\<close> is a parameter that gives the view after
  the edit and the seven values the source receives: \<open>startRow\<close>, \<open>startCol\<close>, \<open>endRow\<close>,
  \<open>endCol\<close>, \<open>text\<close>, \<open>deletedText\<close>, \<open>changed\<close>.
\<close>

record Update =
  ViewID :: string

type_synonym delta = "int \<times> int \<times> int \<times> int \<times> rune list \<times> rune list \<times> bool"

text \<open>
  The \<open>*plugin.Update\<close> case of \<open>handle\<close>. The deferred \<open>recover\<close> turns a panic into
  the return value nil (\<open>None\<close>); the normal return value is 0. A view that is not
  registered is a nil pointer, and so is the client of a syntax that has none: using
  either panics. The view is held by pointer, so the map sees the edit
  \<open>ApplyUpdate\<close> made. \<open>ver := int(view.Rev)\<close> is read after the edit. The change is
  sent before \<open>complete\<close> runs.
\<close>

definition handle :: "(rune \<Rightarrow> int) \<Rightarrow> (rune list \<Rightarrow> rune list \<Rightarrow> int \<times> int list) \<Rightarrow>
    (View \<Rightarrow> 'a Update_scheme \<Rightarrow> View \<times> delta) \<Rightarrow> Plugin \<Rightarrow> 'a Update_scheme \<Rightarrow>
    int option \<times> Plugin \<times> event list" where
  "handle UtfClass MatchScore ApplyUpdate p r =
     (case views p (ViewID r) of
        None \<Rightarrow> (None, p, [])
      | Some view0 \<Rightarrow>
          (case ApplyUpdate view0 r of
             (view, startRow, startCol, endRow, endCol, text, deletedText, changed) \<Rightarrow>
               (let p = p\<lparr>views := (views p)(ViewID r \<mapsto> view)\<rparr> in
                if \<not> changed then (Some 0, p, [])
                else
                  (let ver = Rev view;
                       didChange = \<lparr>URI = ''file://'' @ Path view, Version = ver,
                         ContentChanges =
                           [\<lparr>Range = Some \<lparr>Start = \<lparr>Line = startRow, Character = startCol\<rparr>,
                                            End = \<lparr>Line = endRow, Character = endCol\<rparr>\<rparr>,
                             ChangeText = text\<rparr>]\<rparr>
                   in case lsp p (Syntax view) of
                        None \<Rightarrow> (None, p, [])
                      | Some lspClient \<Rightarrow>
                          (let didChange =
                                 (if TextDocumentSync lspClient = 1 then
                                    didChange\<lparr>ContentChanges :=
                                      [\<lparr>Range = None, ChangeText = Raw (LineCache view)\<rparr>]\<rparr>
                                  else didChange)
                           in case complete UtfClass MatchScore p lspClient view text deletedText
                                     startRow startCol of
                                (res, p', sent) \<Rightarrow>
                                  ((case res of Inl e \<Rightarrow> None | Inr u \<Rightarrow> Some 0), p',
                                   DidChange didChange # sent))))))"

section \<open>Instances of the external functions, for evaluating the definitions\<close>

text \<open>
  The code points of an ASCII literal.
\<close>

definition runes_of :: "string \<Rightarrow> rune list" where
  "runes_of s = map of_char s"

text \<open>
  A classifier: blank and tab are class 0; ASCII letters, digits, the underscore and
  every code point from 128 on are class 2 (identifier characters); the rest is
  class 1.
\<close>

definition sampleUtfClass :: "rune \<Rightarrow> int" where
  "sampleUtfClass r =
     (if r = 32 \<or> r = 9 then 0
      else if (48 \<le> r \<and> r \<le> 57) \<or> (65 \<le> r \<and> r \<le> 90) \<or> r = 95 \<or> (97 \<le> r \<and> r \<le> 122) \<or> 128 \<le> r
        then 2
      else 1)"

text \<open>
  A scorer: a candidate that starts with the word scores the number of runes it has
  beyond the word and matches the word's positions; any other candidate scores -1.
\<close>

definition sampleMatchScore :: "rune list \<Rightarrow> rune list \<Rightarrow> int \<times> int list" where
  "sampleMatchScore txt word =
     (if take (length word) txt = word
      then (int (length txt) - int (length word), map int [0..<length word])
      else (- 1, []))"

text \<open>A view of one line of ASCII text.\<close>

definition lineView :: "string \<Rightarrow> View" where
  "lineView s = \<lparr>Path = ''main.go'', Syntax = ''go'', Rev = 1,
     LineCache = \<lparr>Lines = [\<lparr>Text = runes_of s\<rparr>], Raw = runes_of s\<rparr>\<rparr>"

section \<open>The ranking in the words of the specification\<close>

text \<open>
  The candidate with the score and the matched positions of the scorer written into
  it.
\<close>

definition scored :: "(rune list \<Rightarrow> rune list \<Rightarrow> int \<times> int list) \<Rightarrow> rune list \<Rightarrow> CompletionItem \<Rightarrow> CompletionItem" where
  "scored MatchScore word item =
     item\<lparr>Score := fst (MatchScore (InsertText item) word),
          Matches := snd (MatchScore (InsertText item) word)\<rparr>"

text \<open>
  A candidate survives when its score is not below the match floor 0 (the source
  keeps a candidate when \<open>score > -1\<close>).
\<close>

definition survives :: "(rune list \<Rightarrow> rune list \<Rightarrow> int \<times> int list) \<Rightarrow> rune list \<Rightarrow> CompletionItem \<Rightarrow> bool" where
  "survives MatchScore word item = (0 \<le> fst (MatchScore (InsertText item) word))"

text \<open>
  Walk the result from the front, skip the entries whose score is at most the new
  score, and insert before the first entry with a greater score.
\<close>

definition insert_by_score :: "CompletionItem \<Rightarrow> CompletionItem list \<Rightarrow> CompletionItem list" where
  "insert_by_score item result =
     takeWhile (\<lambda>m. Score m \<le> Score item) result @ item # dropWhile (\<lambda>m. Score m \<le> Score item) result"

text \<open>A candidate as the backend returns it, for an ASCII insert text.\<close>

definition sampleItem :: "string \<Rightarrow> CompletionItem" where
  "sampleItem s = \<lparr>InsertText = runes_of s, Label = runes_of s, Score = 0, Matches = []\<rparr>"

text \<open>The plugin with no client, no view and no stored candidates.\<close>

definition idlePlugin :: Plugin where
  "idlePlugin = \<lparr>lsp = Map.empty, views = Map.empty, completionItems = [], completionShown = False\<rparr>"

text \<open>A backend with a declared synchronisation mode that gives one answer to every query.\<close>

definition sampleClient :: "int \<Rightarrow> (string + CompletionItem list) \<Rightarrow> Client" where
  "sampleClient sync answer = \<lparr>TextDocumentSync = sync, Completion = (\<lambda>params. answer)\<rparr>"

text \<open>A text model whose edit changes nothing.\<close>

definition unchangedUpdate :: "View \<Rightarrow> Update \<Rightarrow> View \<times> delta" where
  "unchangedUpdate view r = (view, 0, 0, 0, 0, [], [], False)"

text \<open>
  A text model whose edit inserts \<open>text\<close> at column \<open>col\<close> of row 0 and leaves the view
  \<open>after\<close>.
\<close>

definition insertUpdate :: "View \<Rightarrow> int \<Rightarrow> rune list \<Rightarrow> View \<Rightarrow> Update \<Rightarrow> View \<times> delta" where
  "insertUpdate after col text view r = (after, 0, col, 0, col, text, [], True)"

text \<open>The plugin with one Go view and its backend.\<close>

definition openPlugin :: "Client \<Rightarrow> View \<Rightarrow> Plugin" where
  "openPlugin client view =
     \<lparr>lsp = [''go'' \<mapsto> client], views = [''view-1'' \<mapsto> view], completionItems = [], completionShown = False\<rparr>"

section \<open>Properties of getWord\<close>

text \<open>
  From a column inside the line (or a negative one) the loop returns: the word is the
  longest run of identifier runes that ends at the column, put before the accumulator.
\<close>

lemma getWord_loop_in_range:
  "i < int (length runes) \<Longrightarrow>
   getWord_loop c runes i word =
     Inr (int (nat (i + 1)) - int (length (takeWhile (\<lambda>r. c r = 2) (rev (take (nat (i + 1)) runes)))),
          rev (takeWhile (\<lambda>r. c r = 2) (rev (take (nat (i + 1)) runes))) @ word)"
proof (induction c runes i word rule: getWord_loop.induct)
  case (1 c runes i word)
  show ?case
  proof (cases "i \<ge> 0")
    case False
    then show ?thesis by (simp add: getWord_loop.simps)
  next
    case True
    with "1.prems" have rd: "index_rune runes i = Inr (runes ! nat i)"
      by (simp add: index_rune_def)
    from True "1.prems" have tk: "take (nat (i + 1)) runes = take (nat i) runes @ [runes ! nat i]"
      by (simp add: nat_add_distrib take_Suc_conv_app_nth)
    show ?thesis
    proof (cases "c (runes ! nat i) = 2")
      case False
      with True rd tk show ?thesis
        by (subst getWord_loop.simps) simp
    next
      case c2: True
      from True "1.prems" have "i - 1 < int (length runes)" by simp
      from "1.IH"[OF True rd _ this] c2
      have "getWord_loop c runes (i - 1) (runes ! nat i # word) =
            Inr (int (nat i) - int (length (takeWhile (\<lambda>r. c r = 2) (rev (take (nat i) runes)))),
                 rev (takeWhile (\<lambda>r. c r = 2) (rev (take (nat i) runes))) @ runes ! nat i # word)"
        by simp
      with True rd tk c2 show ?thesis
        by (subst getWord_loop.simps) simp
    qed
  qed
qed

lemma getWord_loop_out_of_range:
  "int (length runes) \<le> i \<Longrightarrow> getWord_loop c runes i word = Inl (IndexOutOfRange i (length runes))"
  by (subst getWord_loop.simps) (simp add: index_rune_def)

text \<open>The longest run at the end of a list that satisfies a predicate, by position.\<close>

lemma suffix_run:
  fixes xs :: "'a list" and P :: "'a \<Rightarrow> bool"
  defines "s \<equiv> rev (takeWhile P (rev xs))"
  shows "s = drop (length xs - length s) xs"
    and "\<forall>x\<in>set s. P x"
    and "length s \<le> length xs"
    and "length s = length xs \<or> \<not> P (xs ! (length xs - length s - 1))"
proof -
  have split: "xs = rev (dropWhile P (rev xs)) @ s"
    unfolding s_def by (metis rev_append rev_rev_ident takeWhile_dropWhile_id)
  have len: "length xs = length (dropWhile P (rev xs)) + length s"
    using arg_cong[OF split, of length] by simp
  show "s = drop (length xs - length s) xs"
    using split len by (metis add_diff_cancel_right' append_eq_conv_conj length_rev)
  show "\<forall>x\<in>set s. P x"
    unfolding s_def by (auto dest: set_takeWhileD)
  show "length s \<le> length xs" using len by simp
  show "length s = length xs \<or> \<not> P (xs ! (length xs - length s - 1))"
  proof (cases "dropWhile P (rev xs)")
    case Nil
    with len show ?thesis by simp
  next
    case (Cons y ys)
    then have ny: "\<not> P y" by (metis hd_dropWhile list.distinct(1) list.sel(1))
    from Cons have "xs = rev ys @ y # s" using split by simp
    moreover from Cons len have "length xs - length s - 1 = length (rev ys)" by simp
    ultimately have "xs ! (length xs - length s - 1) = y"
      by (metis nth_append_length)
    with ny show ?thesis by simp
  qed
qed



text \<open>
  Claim C6, as amended. For a row of the line cache and a column \<open>col\<close> below the number
  of runes of the line, \<open>getWord\<close> returns a boundary \<open>b\<close> and a word such that: the word
  is the runes of the line from \<open>b\<close> up to and including \<open>col\<close>, in the order of the line;
  every rune of the word is an identifier rune (class 2); and either \<open>b = 0\<close> (the index
  went below 0) or the rune at \<open>b - 1\<close> is not an identifier rune (the scan stopped there,
  with boundary index + 1). The column is the index of the rune the scan starts at:
  for the line \<open>foo.bar\<close> it is column 6, one left of the cursor column 7, that gives
  the word \<open>bar\<close> and the boundary 4 (the witness); at column 7 the first read is out
  of range (the counterexample).
\<close>

theorem getWord_scan:
  assumes row: "0 \<le> row" "row < int (length (Lines (LineCache view)))"
    and col: "col < int (length (Text (Lines (LineCache view) ! nat row)))"
  shows "\<exists>b word. getWord UtfClass view row col = Inr (b, word) \<and>
           0 \<le> b \<and> nat b \<le> nat (col + 1) \<and>
           word = drop (nat b) (take (nat (col + 1)) (Text (Lines (LineCache view) ! nat row))) \<and>
           (\<forall>r\<in>set word. UtfClass r = 2) \<and>
           (b = 0 \<or> UtfClass (Text (Lines (LineCache view) ! nat row) ! nat (b - 1)) \<noteq> 2)"
proof -
  define runes where "runes = Text (Lines (LineCache view) ! nat row)"
  define xs where "xs = take (nat (col + 1)) runes"
  define word where "word = rev (takeWhile (\<lambda>r. UtfClass r = 2) (rev xs))"
  define b where "b = int (nat (col + 1)) - int (length word)"
  from col have lx: "length xs = nat (col + 1)"
    by (simp add: xs_def runes_def)
  have run: "word = drop (length xs - length word) xs" "\<forall>r\<in>set word. UtfClass r = 2"
    "length word \<le> length xs"
    "length word = length xs \<or> UtfClass (xs ! (length xs - length word - 1)) \<noteq> 2"
    unfolding word_def by (rule suffix_run)+
  have res: "getWord UtfClass view row col = Inr (b, word)"
    using row col getWord_loop_in_range[of col runes UtfClass "[]"]
    by (simp add: getWord_def Let_def runes_def xs_def word_def b_def)
  have b0: "0 \<le> b" using run(3) lx unfolding b_def by linarith
  have nb: "nat b = length xs - length word" using run(3) lx unfolding b_def by linarith
  have "b = 0 \<or> UtfClass (runes ! nat (b - 1)) \<noteq> 2"
  proof (cases "length word = length xs")
    case True
    then show ?thesis using lx by (simp add: b_def)
  next
    case False
    with run(4) have ne: "UtfClass (xs ! (length xs - length word - 1)) \<noteq> 2" by simp
    from False run(3) have pos: "length xs - length word - 1 < length xs" by simp
    then have "xs ! (length xs - length word - 1) = runes ! (length xs - length word - 1)"
      using lx by (simp add: xs_def)
    moreover have "nat (b - 1) = length xs - length word - 1"
      using nb b0 by (simp add: nat_diff_distrib)
    ultimately show ?thesis using ne by simp
  qed
  with res b0 nb run(1,2) lx show ?thesis
    by (intro exI[of _ b] exI[of _ word]) (simp add: xs_def runes_def)
qed

theorem getWord_scan_witness:
  "getWord sampleUtfClass (lineView ''foo.bar'') 0 6 = Inr (4, runes_of ''bar'')"
  using getWord_scan[of 0 "lineView ''foo.bar''" 6 sampleUtfClass]
  by (simp add: getWord_def getWord_loop.simps index_rune_def lineView_def runes_of_def
      sampleUtfClass_def)

theorem getWord_cursor_column_counterexample:
  "getWord sampleUtfClass (lineView ''foo.bar'') 0 7 = Inl (IndexOutOfRange 7 7)"
  by (simp add: getWord_def getWord_loop.simps index_rune_def lineView_def runes_of_def)


text \<open>
  Claim C10, as amended. For a row of the line cache, \<open>getWord\<close> returns exactly when
  \<open>col\<close> is below the number of runes of the line (a negative \<open>col\<close> included: the loop
  body does not run and the result is boundary 0 with the empty word); when \<open>col\<close> is at
  least the number of runes, the first read \<open>runes[col]\<close> is out of range and panics;
  and no read is ever out of range at a negative index.
\<close>

theorem getWord_bounds:
  assumes row: "0 \<le> row" "row < int (length (Lines (LineCache view)))"
  shows "((\<exists>y. getWord UtfClass view row col = Inr y) \<longleftrightarrow>
            col < int (length (Text (Lines (LineCache view) ! nat row)))) \<and>
         (int (length (Text (Lines (LineCache view) ! nat row))) \<le> col \<longrightarrow>
            getWord UtfClass view row col =
              Inl (IndexOutOfRange col (length (Text (Lines (LineCache view) ! nat row))))) \<and>
         (\<forall>i n. getWord UtfClass view row col = Inl (IndexOutOfRange i n) \<longrightarrow> 0 \<le> i)"
proof (cases "col < int (length (Text (Lines (LineCache view) ! nat row)))")
  case True
  with row show ?thesis
    using getWord_loop_in_range[of col "Text (Lines (LineCache view) ! nat row)" UtfClass "[]"]
    by (simp add: getWord_def Let_def)
next
  case False
  with row show ?thesis
    using getWord_loop_out_of_range[of "Text (Lines (LineCache view) ! nat row)" col UtfClass "[]"]
    by (simp add: getWord_def Let_def)
qed

theorem getWord_bounds_witness:
  "getWord sampleUtfClass (lineView ''ab'') 0 2 = Inl (IndexOutOfRange 2 2) \<and>
   getWord sampleUtfClass (lineView ''ab'') 0 1 = Inr (0, runes_of ''ab'')"
  using getWord_bounds[of 0 "lineView ''ab''" sampleUtfClass 2]
    getWord_bounds[of 0 "lineView ''ab''" sampleUtfClass 1]
  by (simp add: getWord_def getWord_loop.simps index_rune_def lineView_def runes_of_def
      sampleUtfClass_def)

theorem getWord_negative_column_counterexample:
  "getWord sampleUtfClass (lineView ''foo.bar'') 0 (- 1) = Inr (0, []) \<and> \<not> (0 \<le> (- 1 :: int))"
  by (simp add: getWord_def getWord_loop.simps lineView_def runes_of_def)

section \<open>Properties of matchCompletionItems\<close>

text \<open>
  The inner loop stops at the number of leading entries whose score is at most the
  new score, so the three slice statements are \<open>insert_by_score\<close>.
\<close>

lemma scan_matchItems_takeWhile:
  "i \<le> length ms \<Longrightarrow>
   scan_matchItems score ms i = i + length (takeWhile (\<lambda>m. Score m \<le> score) (drop i ms))"
proof (induction score ms i rule: scan_matchItems.induct)
  case (1 score ms i)
  show ?case
  proof (cases "i < length ms")
    case False
    with "1.prems" show ?thesis by (subst scan_matchItems.simps) simp
  next
    case True
    then have dr: "drop i ms = ms ! i # drop (Suc i) ms"
      by (simp add: Cons_nth_drop_Suc)
    show ?thesis
    proof (cases "score < Score (ms ! i)")
      case True
      with \<open>i < length ms\<close> dr show ?thesis by (subst scan_matchItems.simps) simp
    next
      case False
      with "1.IH"[OF True False] True dr show ?thesis
        by (subst scan_matchItems.simps) simp
    qed
  qed
qed

lemma splice_insert_by_score:
  "take (scan_matchItems score ms 0) ms @ (item\<lparr>Score := score, Matches := matches\<rparr>) # drop (scan_matchItems score ms 0) ms
   = insert_by_score (item\<lparr>Score := score, Matches := matches\<rparr>) ms"
  by (simp add: scan_matchItems_takeWhile insert_by_score_def takeWhile_eq_take[symmetric]
      dropWhile_eq_drop[symmetric])

lemma match_loop_fst:
  "fst (match_loop MS word items acc) =
   foldl (\<lambda>result c. insert_by_score c result) acc
     (map (scored MS word) (filter (survives MS word) items))"
proof (induction items arbitrary: acc)
  case Nil
  show ?case by simp
next
  case (Cons item items)
  obtain score matches where ms: "MS (InsertText item) word = (score, matches)"
    by (cases "MS (InsertText item) word")
  show ?case
  proof (cases "score > - 1")
    case True
    then have sv: "survives MS word item" by (simp add: survives_def ms)
    have sc: "scored MS word item = item\<lparr>Score := score, Matches := matches\<rparr>"
      by (simp add: scored_def ms)
    from True sv show ?thesis
      by (simp add: ms Let_def split_beta Cons.IH splice_insert_by_score sc)
  next
    case False
    then have "\<not> survives MS word item" by (simp add: survives_def ms)
    with False show ?thesis
      by (simp add: ms Let_def split_beta Cons.IH)
  qed
qed

lemma set_insert_by_score: "set (insert_by_score c ms) = insert c (set ms)"
proof -
  have "set ms = set (takeWhile (\<lambda>m. Score m \<le> Score c) ms @ dropWhile (\<lambda>m. Score m \<le> Score c) ms)"
    by simp
  then show ?thesis unfolding insert_by_score_def by (simp only: set_append set_simps) auto
qed

lemma sorted_insert_by_score:
  "sorted (map Score ms) \<Longrightarrow> sorted (map Score (insert_by_score c ms))"
proof (induction ms)
  case Nil
  show ?case by (simp add: insert_by_score_def)
next
  case (Cons m ms)
  show ?case
  proof (cases "Score m \<le> Score c")
    case True
    then have eq: "insert_by_score c (m # ms) = m # insert_by_score c ms"
      by (simp add: insert_by_score_def)
    from Cons.prems have "sorted (map Score ms)" "\<forall>x\<in>set ms. Score m \<le> Score x" by auto
    with Cons.IH True show ?thesis
      by (simp add: eq set_insert_by_score)
  next
    case False
    then have eq: "insert_by_score c (m # ms) = c # m # ms"
      by (simp add: insert_by_score_def)
    from False Cons.prems show ?thesis by (auto simp: eq)
  qed
qed

lemma foldl_insert_sorted:
  "sorted (map Score acc) \<Longrightarrow> sorted (map Score (foldl (\<lambda>result c. insert_by_score c result) acc cs))"
  by (induction cs arbitrary: acc) (simp_all add: sorted_insert_by_score)

lemma foldl_insert_set:
  "set (foldl (\<lambda>result c. insert_by_score c result) acc cs) = set acc \<union> set cs"
  by (induction cs arbitrary: acc) (auto simp: set_insert_by_score)

text \<open>
  Claim C1. For every candidate list and every non-empty word, the list that
  \<open>matchCompletionItems\<close> returns has non-decreasing scores from front to back; it holds
  exactly the candidates whose score is not below the match floor, each with its score
  and matches written in, so every candidate below the floor is excluded and no entry
  has a score below the floor; and it is built by inserting the surviving candidates
  one after the other, in the order of the input, each by \<open>insert_by_score\<close>: after the
  entries whose score is at most its own and before the first entry with a strictly
  greater score.
\<close>

theorem matchCompletionItems_ranking:
  assumes "word \<noteq> []"
  shows "sorted (map Score (fst (matchCompletionItems MatchScore items word))) \<and>
         set (fst (matchCompletionItems MatchScore items word)) =
           scored MatchScore word ` {c \<in> set items. survives MatchScore word c} \<and>
         (\<forall>x\<in>set (fst (matchCompletionItems MatchScore items word)). 0 \<le> Score x) \<and>
         fst (matchCompletionItems MatchScore items word) =
           foldl (\<lambda>result c. insert_by_score c result) []
             (map (scored MatchScore word) (filter (survives MatchScore word) items))"
proof -
  have eq: "fst (matchCompletionItems MatchScore items word) =
           foldl (\<lambda>result c. insert_by_score c result) []
             (map (scored MatchScore word) (filter (survives MatchScore word) items))"
    using assms by (simp add: matchCompletionItems_def match_loop_fst)
  have st: "set (fst (matchCompletionItems MatchScore items word)) =
           scored MatchScore word ` {c \<in> set items. survives MatchScore word c}"
    unfolding eq by (simp add: foldl_insert_set)
  have "\<forall>x\<in>set (fst (matchCompletionItems MatchScore items word)). 0 \<le> Score x"
    unfolding st by (auto simp: scored_def survives_def)
  moreover have "sorted (map Score (fst (matchCompletionItems MatchScore items word)))"
    unfolding eq by (rule foldl_insert_sorted) simp
  ultimately show ?thesis using eq st by blast
qed

theorem matchCompletionItems_ranking_witness:
  "runes_of ''fo'' \<noteq> [] \<and>
   sorted (map Score (fst (matchCompletionItems sampleMatchScore
      [sampleItem ''food'', sampleItem ''bar'', sampleItem ''foo'', sampleItem ''fob''] (runes_of ''fo'')))) \<and>
   fst (matchCompletionItems sampleMatchScore
      [sampleItem ''food'', sampleItem ''bar'', sampleItem ''foo'', sampleItem ''fob''] (runes_of ''fo'')) =
     [(sampleItem ''foo'')\<lparr>Score := 1, Matches := [0, 1]\<rparr>,
      (sampleItem ''fob'')\<lparr>Score := 1, Matches := [0, 1]\<rparr>,
      (sampleItem ''food'')\<lparr>Score := 2, Matches := [0, 1]\<rparr>]"
proof -
  have ne: "runes_of ''fo'' \<noteq> []" by (simp add: runes_of_def)
  have ev: "fst (matchCompletionItems sampleMatchScore
      [sampleItem ''food'', sampleItem ''bar'', sampleItem ''foo'', sampleItem ''fob''] (runes_of ''fo'')) =
     [(sampleItem ''foo'')\<lparr>Score := 1, Matches := [0, 1]\<rparr>,
      (sampleItem ''fob'')\<lparr>Score := 1, Matches := [0, 1]\<rparr>,
      (sampleItem ''food'')\<lparr>Score := 2, Matches := [0, 1]\<rparr>]"
    by (simp add: matchCompletionItems_def scan_matchItems.simps sampleMatchScore_def Let_def
        sampleItem_def runes_of_def upt_rec)
  from matchCompletionItems_ranking[OF ne, of sampleMatchScore
      "[sampleItem ''food'', sampleItem ''bar'', sampleItem ''foo'', sampleItem ''fob'']"]
  have "sorted (map Score (fst (matchCompletionItems sampleMatchScore
      [sampleItem ''food'', sampleItem ''bar'', sampleItem ''foo'', sampleItem ''fob''] (runes_of ''fo''))))"
    by (rule conjunct1)
  with ne ev show ?thesis by (intro conjI)
qed

text \<open>
  A list with non-decreasing scores whose entries already carry their own score and
  matches is rebuilt entry by entry at the end.
\<close>

lemma insert_by_score_last:
  "\<forall>m\<in>set acc. Score m \<le> Score x \<Longrightarrow> insert_by_score x acc = acc @ [x]"
  by (simp add: insert_by_score_def)

lemma foldl_insert_sorted_id:
  "sorted (map Score (acc @ xs)) \<Longrightarrow> foldl (\<lambda>result c. insert_by_score c result) acc xs = acc @ xs"
proof (induction xs arbitrary: acc)
  case Nil
  show ?case by simp
next
  case (Cons x xs)
  from Cons.prems have le: "\<forall>m\<in>set acc. Score m \<le> Score x"
    by (auto simp: sorted_append)
  from Cons.prems have "sorted (map Score ((acc @ [x]) @ xs))" by simp
  from Cons.IH[OF this] le show ?case
    by (simp add: insert_by_score_last)
qed

lemma scored_idem: "scored MS word (scored MS word c) = scored MS word c"
  by (simp add: scored_def)

lemma survives_scored: "survives MS word (scored MS word c) = survives MS word c"
  by (simp add: survives_def scored_def)

text \<open>
  Claim C7. For every candidate list and every word, ranking the list that
  \<open>matchCompletionItems\<close> returned against the same word again returns the same list,
  entry by entry.
\<close>

theorem matchCompletionItems_idempotent:
  "fst (matchCompletionItems MatchScore (fst (matchCompletionItems MatchScore items word)) word) =
   fst (matchCompletionItems MatchScore items word)"
proof (cases "word = []")
  case True
  then show ?thesis
    by (simp add: matchCompletionItems_def Let_def)
next
  case False
  define r where "r = fst (matchCompletionItems MatchScore items word)"
  have r: "r = foldl (\<lambda>result c. insert_by_score c result) []
      (map (scored MatchScore word) (filter (survives MatchScore word) items))"
    using False by (simp add: r_def matchCompletionItems_def match_loop_fst)
  have mem: "\<forall>x\<in>set r. scored MatchScore word x = x \<and> survives MatchScore word x"
    unfolding r by (auto simp: foldl_insert_set scored_idem survives_scored)
  have srt: "sorted (map Score r)"
    unfolding r by (rule foldl_insert_sorted) simp
  from mem have "filter (survives MatchScore word) r = r" by simp
  moreover from mem have "map (scored MatchScore word) r = r" by (simp add: map_idI)
  ultimately have "fst (matchCompletionItems MatchScore r word) =
      foldl (\<lambda>result c. insert_by_score c result) [] r"
    using False by (simp add: matchCompletionItems_def match_loop_fst)
  also have "\<dots> = r" using foldl_insert_sorted_id[of "[]" r] srt by simp
  finally show ?thesis by (simp add: r_def)
qed

theorem matchCompletionItems_idempotent_witness:
  "fst (matchCompletionItems sampleMatchScore
      (fst (matchCompletionItems sampleMatchScore
         [sampleItem ''food'', sampleItem ''bar'', sampleItem ''foo''] (runes_of ''fo''))) (runes_of ''fo'')) =
     [(sampleItem ''foo'')\<lparr>Score := 1, Matches := [0, 1]\<rparr>,
      (sampleItem ''food'')\<lparr>Score := 2, Matches := [0, 1]\<rparr>]"
  using matchCompletionItems_idempotent[of sampleMatchScore
      "[sampleItem ''food'', sampleItem ''bar'', sampleItem ''foo'']" "runes_of ''fo''"]
  by (simp add: matchCompletionItems_def scan_matchItems.simps sampleMatchScore_def Let_def
      sampleItem_def runes_of_def upt_rec)

section \<open>Properties of the completion session\<close>

text \<open>
  Claim C4. For every edit that inserts two or more characters, \<open>complete\<close> leaves the
  stored candidate list empty (an Active list is discarded), broadcasts the now
  current, empty list once, and sends nothing else: no completion query reaches the
  backend. It does not panic.
\<close>

theorem complete_bulk_insert:
  "length text > 1 \<Longrightarrow>
   complete UtfClass MatchScore p lspClient view text deletedText startRow startCol =
     (Inr (), p\<lparr>completionItems := [], completionShown := False\<rparr>, [NotifyCompletion []])"
  by (cases "completionItems p") (simp_all add: complete_def notifyCompletion_def Let_def)

theorem complete_bulk_insert_witness:
  "length (runes_of ''foo'') > 1 \<and>
   complete sampleUtfClass sampleMatchScore (idlePlugin\<lparr>completionItems := [sampleItem ''food'']\<rparr>)
       (sampleClient 2 (Inr [])) (lineView ''foo'') (runes_of ''foo'') [] 0 0 =
     (Inr (), idlePlugin, [NotifyCompletion []])"
  using complete_bulk_insert[of "runes_of ''foo''" sampleUtfClass sampleMatchScore
      "idlePlugin\<lparr>completionItems := [sampleItem ''food'']\<rparr>" "sampleClient 2 (Inr [])"
      "lineView ''foo''" "[]" 0 0]
  by (simp add: runes_of_def idlePlugin_def)

text \<open>
  Claim C5. For every edit that inserts exactly one character that is neither \<open>.\<close> nor
  an identifier character, with a non-empty stored candidate list, \<open>complete\<close> clears
  the list, broadcasts the now empty list once, and sends no completion query.
\<close>

theorem complete_punctuation:
  "text = [r] \<Longrightarrow> r \<noteq> 46 \<Longrightarrow> UtfClass r \<noteq> 2 \<Longrightarrow> completionItems p \<noteq> [] \<Longrightarrow>
   complete UtfClass MatchScore p lspClient view text deletedText startRow startCol =
     (Inr (), p\<lparr>completionItems := [], completionShown := False\<rparr>, [NotifyCompletion []])"
  by (simp add: complete_def notifyCompletion_def Let_def)

theorem complete_punctuation_witness:
  "sampleUtfClass 59 \<noteq> 2 \<and>
   complete sampleUtfClass sampleMatchScore (idlePlugin\<lparr>completionItems := [sampleItem ''food'']\<rparr>)
       (sampleClient 2 (Inr [])) (lineView ''foo;'') [59] [] 0 3 =
     (Inr (), idlePlugin, [NotifyCompletion []])"
  using complete_punctuation[of "[59]" 59 sampleUtfClass
      "idlePlugin\<lparr>completionItems := [sampleItem ''food'']\<rparr>" sampleMatchScore "sampleClient 2 (Inr [])"
      "lineView ''foo;''" "[]" 0 3]
  by (simp add: sampleUtfClass_def idlePlugin_def)

text \<open>
  Claim C9. Whenever \<open>getCompletionItems\<close> sent a completion query and the backend
  answered it with an error, the function returns the empty list, the plugin is left
  as it was, its stored list is empty (the session is Idle), and the query is all
  that was sent, so that a later edit can query again.
\<close>

theorem getCompletionItems_query_failure:
  "getCompletionItems UtfClass MatchScore p lspClient view text startRow startCol = (res, p', sent) \<Longrightarrow>
   CompletionQuery q \<in> set sent \<Longrightarrow> Completion lspClient q = Inl err \<Longrightarrow>
   res = Inr [] \<and> p' = p \<and> completionItems p' = [] \<and> sent = [CompletionQuery q]"
  by (auto simp: getCompletionItems_def Let_def notifyCompletionPos_def
      split: if_splits sum.splits prod.splits)


theorem getCompletionItems_query_failure_witness:
  "getCompletionItems sampleUtfClass sampleMatchScore idlePlugin (sampleClient 2 (Inl ''no server''))
      (lineView ''f'') (runes_of ''f'') 0 0 =
     (Inr [], idlePlugin,
      [CompletionQuery \<lparr>TextDocument = ''file://main.go'', Position = \<lparr>Line = 0, Character = 0\<rparr>\<rparr>]) \<and>
   completionItems idlePlugin = []"
proof -
  have ev: "getCompletionItems sampleUtfClass sampleMatchScore idlePlugin (sampleClient 2 (Inl ''no server''))
      (lineView ''f'') (runes_of ''f'') 0 0 =
     (Inr [], idlePlugin,
      [CompletionQuery \<lparr>TextDocument = ''file://main.go'', Position = \<lparr>Line = 0, Character = 0\<rparr>\<rparr>])"
    by (simp add: getCompletionItems_def idlePlugin_def sampleClient_def lineView_def runes_of_def
        len_string_def RuneLen_def sampleUtfClass_def getWord_def getWord_loop.simps index_rune_def)
  have fl: "Completion (sampleClient 2 (Inl ''no server''))
      \<lparr>TextDocument = ''file://main.go'', Position = \<lparr>Line = 0, Character = 0\<rparr>\<rparr> = Inl ''no server''"
    by (simp add: sampleClient_def)
  from getCompletionItems_query_failure[OF ev _ fl] have "completionItems idlePlugin = []" by simp
  with ev show ?thesis by (intro conjI)
qed

text \<open>
  With a non-empty stored list \<open>getCompletionItems\<close> ranks the stored list against the
  scanned word and sends nothing. With an empty stored list and one inserted
  identifier character of one byte, the query is anchored at the boundary the scan
  returns.
\<close>

lemma getCompletionItems_narrow:
  "completionItems p \<noteq> [] \<Longrightarrow>
   getWord UtfClass view startRow (if text = [] then startCol - 1 else startCol) = Inr (b, word) \<Longrightarrow>
   getCompletionItems UtfClass MatchScore p lspClient view text startRow startCol =
     (Inr (fst (matchCompletionItems MatchScore (completionItems p) word)),
      p\<lparr>completionItems := snd (matchCompletionItems MatchScore (completionItems p) word)\<rparr>, [])"
  by (simp add: getCompletionItems_def split: prod.splits)

lemma getCompletionItems_active_sends_nothing:
  "completionItems p \<noteq> [] \<Longrightarrow>
   snd (snd (getCompletionItems UtfClass MatchScore p lspClient view text startRow startCol)) = []"
  by (simp add: getCompletionItems_def split: prod.splits sum.splits)

lemma getCompletionItems_fetch_one_byte:
  "completionItems p = [] \<Longrightarrow> text = [r] \<Longrightarrow> r \<le> 127 \<Longrightarrow> r \<noteq> 46 \<Longrightarrow> UtfClass r = 2 \<Longrightarrow>
   getWord UtfClass view startRow startCol = Inr (b, word) \<Longrightarrow>
   hd (snd (snd (getCompletionItems UtfClass MatchScore p lspClient view text startRow startCol))) =
     CompletionQuery \<lparr>TextDocument = ''file://'' @ Path view,
       Position = \<lparr>Line = startRow, Character = b\<rparr>\<rparr>"
  by (simp add: getCompletionItems_def len_string_def RuneLen_def Let_def notifyCompletionPos_def
      split: prod.splits sum.splits)

text \<open>
  Claim C2, evaluated where the code departs from it. The session is Idle, the line
  is \<open>ab\<close> followed by the Greek letter lambda (code point 955, two bytes in UTF-8), and
  the edit inserted the lambda at column 2. The lambda is an identifier character and
  the backward scan from column 2 gives the word-start column 0 and the word of three
  runes. \<open>len(text) == 1\<close> is false for the two-byte string, so no scan is made: the
  query is anchored at column 2 and the response is ranked against the empty word.
\<close>

theorem getCompletionItems_two_byte_rune:
  "sampleUtfClass 955 = 2 \<and>
   getWord sampleUtfClass ((lineView '''')\<lparr>LineCache := \<lparr>Lines = [\<lparr>Text = [97, 98, 955]\<rparr>], Raw = [97, 98, 955]\<rparr>\<rparr>) 0 2 =
     Inr (0, [97, 98, 955]) \<and>
   getCompletionItems sampleUtfClass sampleMatchScore idlePlugin (sampleClient 2 (Inr [sampleItem ''abc'']))
      ((lineView '''')\<lparr>LineCache := \<lparr>Lines = [\<lparr>Text = [97, 98, 955]\<rparr>], Raw = [97, 98, 955]\<rparr>\<rparr>) [955] 0 2 =
     (Inr [sampleItem ''abc''], idlePlugin\<lparr>completionItems := [sampleItem ''abc'']\<rparr>,
      [CompletionQuery \<lparr>TextDocument = ''file://main.go'', Position = \<lparr>Line = 0, Character = 2\<rparr>\<rparr>,
       NotifyCompletionPos \<lparr>Line = 0, Character = 2\<rparr>])"
  by (simp add: getCompletionItems_def idlePlugin_def sampleClient_def lineView_def runes_of_def
      len_string_def RuneLen_def sampleUtfClass_def getWord_def getWord_loop.simps index_rune_def
      matchCompletionItems_def notifyCompletionPos_def sampleItem_def Let_def)


section \<open>Properties of handle\<close>

text \<open>
  Claim C8. For every Update event of a registered view whose edit reports
  \<open>changed = false\<close>, \<open>handle\<close> returns 0 and sends nothing (no change notification, no
  completion query, no broadcast), and the plugin is as before but for the view, which
  holds what the text model made of it: the stored candidates, the shown flag and the
  clients are unchanged.
\<close>

theorem handle_unchanged:
  "views p (ViewID r) = Some before \<Longrightarrow>
   ApplyUpdate before r = (view, startRow, startCol, endRow, endCol, text, deletedText, False) \<Longrightarrow>
   handle UtfClass MatchScore ApplyUpdate p r =
     (Some 0, p\<lparr>views := (views p)(ViewID r \<mapsto> view)\<rparr>, [])"
  by (simp add: handle_def)

theorem handle_unchanged_witness:
  "handle sampleUtfClass sampleMatchScore unchangedUpdate
      (openPlugin (sampleClient 2 (Inr [])) (lineView ''foo'')) \<lparr>ViewID = ''view-1''\<rparr> =
     (Some 0, openPlugin (sampleClient 2 (Inr [])) (lineView ''foo''), [])"
  using handle_unchanged[of "openPlugin (sampleClient 2 (Inr [])) (lineView ''foo'')"
      "\<lparr>ViewID = ''view-1''\<rparr>" "lineView ''foo''" unchangedUpdate "lineView ''foo''" 0 0 0 0 "[]" "[]"
      sampleUtfClass sampleMatchScore]
  by (simp add: openPlugin_def unchangedUpdate_def)

text \<open>Neither \<open>getCompletionItems\<close> nor \<open>complete\<close> sends a change notification.\<close>

lemma getCompletionItems_no_DidChange:
  "\<forall>e\<in>set (snd (snd (getCompletionItems UtfClass MatchScore p lspClient view text startRow startCol))).
     \<not> is_DidChange e"
  by (auto simp: getCompletionItems_def Let_def notifyCompletionPos_def
      split: if_splits sum.splits prod.splits)

lemma complete_no_DidChange:
  "\<forall>e\<in>set (snd (snd (complete UtfClass MatchScore p lspClient view text deletedText startRow startCol))).
     \<not> is_DidChange e"
proof -
  define reset where "reset =
    (let reset = (length text > 1);
         reset = (if \<not> reset then list_ex (\<lambda>r. UtfClass r \<noteq> 2) text else reset)
     in (if \<not> reset then list_ex (\<lambda>r. UtfClass r \<noteq> 2) deletedText else reset))"
  define q where "q = (if reset \<and> length (completionItems p) > 0 then p\<lparr>completionItems := []\<rparr> else p)"
  define G where "G = getCompletionItems UtfClass MatchScore q lspClient view text startRow startCol"
  obtain res p' sent where g: "G = (res, p', sent)"
    by (cases G)
  have nd: "\<forall>e\<in>set sent. \<not> is_DidChange e"
    using getCompletionItems_no_DidChange[of UtfClass MatchScore q lspClient view "text" startRow startCol]
    by (simp add: g G_def[symmetric])
  have c: "complete UtfClass MatchScore p lspClient view text deletedText startRow startCol =
      (if length text > 1 then (Inr (), q\<lparr>completionShown := (length (completionItems q) > 0)\<rparr>,
            [NotifyCompletion (completionItems q)])
       else if length text > 0 \<and> last text \<noteq> 46 \<and> UtfClass (last text) \<noteq> 2
         then (Inr (), q\<lparr>completionShown := (length (completionItems q) > 0)\<rparr>,
            [NotifyCompletion (completionItems q)])
       else (case res of Inl e \<Rightarrow> (Inl e, p', sent)
             | Inr items \<Rightarrow> (Inr (), p'\<lparr>completionShown := (length items > 0)\<rparr>,
                 sent @ [NotifyCompletion items])))"
    unfolding complete_def notifyCompletion_def Let_def reset_def[unfolded Let_def, symmetric]
      q_def[symmetric] G_def[symmetric]
    by (simp add: g split: sum.splits)
  show ?thesis
    unfolding c using nd by (simp split: sum.splits)
qed

text \<open>
  Claim C3. For every Update event of a registered view whose edit reports
  \<open>changed = true\<close> and whose syntax has a backend, the first thing \<open>handle\<close> sends is one
  change notification for \<open>file://\<close> and the view's path, tagged with the revision of
  the view after the edit. If the backend declared full synchronisation (1) the change
  has no range and its text is the whole content of the text model; otherwise (so for
  incremental synchronisation) it has the start and end positions of the delta and the
  inserted text. What follows is what \<open>complete\<close> sends, which holds no change
  notification.
\<close>

theorem handle_didChange:
  assumes "views p (ViewID r) = Some before"
    and "ApplyUpdate before r = (view, startRow, startCol, endRow, endCol, text, deletedText, True)"
    and "lsp p (Syntax view) = Some lspClient"
  shows "snd (snd (handle UtfClass MatchScore ApplyUpdate p r)) =
     DidChange \<lparr>URI = ''file://'' @ Path view, Version = Rev view,
       ContentChanges =
         [if TextDocumentSync lspClient = 1
          then \<lparr>Range = None, ChangeText = Raw (LineCache view)\<rparr>
          else \<lparr>Range = Some \<lparr>Start = \<lparr>Line = startRow, Character = startCol\<rparr>,
                               End = \<lparr>Line = endRow, Character = endCol\<rparr>\<rparr>,
                ChangeText = text\<rparr>]\<rparr>
     # snd (snd (complete UtfClass MatchScore (p\<lparr>views := (views p)(ViewID r \<mapsto> view)\<rparr>)
                   lspClient view text deletedText startRow startCol)) \<and>
   (\<forall>e\<in>set (snd (snd (complete UtfClass MatchScore (p\<lparr>views := (views p)(ViewID r \<mapsto> view)\<rparr>)
                   lspClient view text deletedText startRow startCol))). \<not> is_DidChange e)"
  using assms complete_no_DidChange
  by (simp add: handle_def Let_def split: prod.splits)


theorem handle_didChange_witness:
  "hd (snd (snd (handle sampleUtfClass sampleMatchScore
        (insertUpdate ((lineView ''fo'')\<lparr>Rev := 2\<rparr>) 1 (runes_of ''o''))
        (openPlugin (sampleClient 1 (Inr [])) (lineView ''f'')) \<lparr>ViewID = ''view-1''\<rparr>))) =
     DidChange \<lparr>URI = ''file://main.go'', Version = 2,
       ContentChanges = [\<lparr>Range = None, ChangeText = runes_of ''fo''\<rparr>]\<rparr> \<and>
   hd (snd (snd (handle sampleUtfClass sampleMatchScore
        (insertUpdate ((lineView ''fo'')\<lparr>Rev := 2\<rparr>) 1 (runes_of ''o''))
        (openPlugin (sampleClient 2 (Inr [])) (lineView ''f'')) \<lparr>ViewID = ''view-1''\<rparr>))) =
     DidChange \<lparr>URI = ''file://main.go'', Version = 2,
       ContentChanges = [\<lparr>Range = Some \<lparr>Start = \<lparr>Line = 0, Character = 1\<rparr>,
                                          End = \<lparr>Line = 0, Character = 1\<rparr>\<rparr>,
                          ChangeText = runes_of ''o''\<rparr>]\<rparr>"
proof -
  have v: "\<And>c. views (openPlugin c (lineView ''f'')) (ViewID \<lparr>ViewID = ''view-1''\<rparr>) = Some (lineView ''f'')"
    by (simp add: openPlugin_def)
  have u: "insertUpdate ((lineView ''fo'')\<lparr>Rev := 2\<rparr>) 1 (runes_of ''o'') (lineView ''f'') \<lparr>ViewID = ''view-1''\<rparr> =
      ((lineView ''fo'')\<lparr>Rev := 2\<rparr>, 0, 1, 0, 1, runes_of ''o'', [], True)"
    by (simp add: insertUpdate_def)
  have l: "\<And>c. lsp (openPlugin c (lineView ''f'')) (Syntax ((lineView ''fo'')\<lparr>Rev := 2\<rparr>)) = Some c"
    by (simp add: openPlugin_def lineView_def)
  show ?thesis
    using handle_didChange[where UtfClass = sampleUtfClass and MatchScore = sampleMatchScore
        and p = "openPlugin (sampleClient 1 (Inr [])) (lineView ''f'')"
        and r = "\<lparr>ViewID = ''view-1''\<rparr>" and before = "lineView ''f''"
        and ApplyUpdate = "insertUpdate ((lineView ''fo'')\<lparr>Rev := 2\<rparr>) 1 (runes_of ''o'')",
        OF v u l]
      handle_didChange[where UtfClass = sampleUtfClass and MatchScore = sampleMatchScore
        and p = "openPlugin (sampleClient 2 (Inr [])) (lineView ''f'')"
        and r = "\<lparr>ViewID = ''view-1''\<rparr>" and before = "lineView ''f''"
        and ApplyUpdate = "insertUpdate ((lineView ''fo'')\<lparr>Rev := 2\<rparr>) 1 (runes_of ''o'')",
        OF v u l]
    by (simp add: sampleClient_def lineView_def)
qed

end
